theory Spec2Isabelle
  imports Main "HOL-Library.Char_ord" "HOL-Library.List_Lexorder" "HOL-Library.Multiset"
begin

section \<open>The transcript converter (convert\_to\_markdown.py)\<close>

text \<open>
  Python strings are modelled as \<^typ>\<open>string\<close>, a list of characters whose codes lie
  below 256; a character is identified with the code point of the same number.
\<close>

subsection \<open>sanitize\_filename\<close>

definition printable :: "char \<Rightarrow> bool" where
  \<comment> \<open>\<open>char in string.printable\<close>: digits, ASCII letters, punctuation (codes 32 to 126
      together with the blank) and the whitespace characters tab, newline, vertical tab,
      form feed and carriage return (codes 9 to 13).\<close>
  "printable c = (let n = (of_char c :: int) in (32 \<le> n \<and> n \<le> 126) \<or> (9 \<le> n \<and> n \<le> 13))"

definition unsafe_chars :: string where
  \<comment> \<open>The literal \<open>'<>:"/\\|?*'\<close>.\<close>
  "unsafe_chars = [CHR ''<'', CHR ''>'', CHR '':'', CHR 0x22, CHR ''/'', CHR 0x5C,
                   CHR ''|'', CHR ''?'', CHR ''*'']"

definition sanitize_char :: "char \<Rightarrow> char" where
  "sanitize_char c = (if printable c \<and> c \<notin> set unsafe_chars then c else CHR ''-'')"

fun has_double_dash :: "string \<Rightarrow> bool" where
  \<comment> \<open>\<open>'--' in s\<close>\<close>
  "has_double_dash (a # b # cs) = ((a = CHR ''-'' \<and> b = CHR ''-'') \<or> has_double_dash (b # cs))"
| "has_double_dash _ = False"

fun replace_double_dash :: "string \<Rightarrow> string" where
  \<comment> \<open>\<open>s.replace('--', '-')\<close>: non-overlapping occurrences, from the left.\<close>
  "replace_double_dash (a # b # cs) =
     (if a = CHR ''-'' \<and> b = CHR ''-'' then CHR ''-'' # replace_double_dash cs
      else a # replace_double_dash (b # cs))"
| "replace_double_dash cs = cs"

function collapse_dashes :: "string \<Rightarrow> string" where
  \<comment> \<open>\<open>while '--' in sanitized: sanitized = sanitized.replace('--', '-')\<close>\<close>
  "collapse_dashes s = (if has_double_dash s then collapse_dashes (replace_double_dash s) else s)"
  by pat_completeness auto
termination
proof (relation "measure length")
  show "wf (measure length)" by simp
next
  fix s :: string
  assume dd: "has_double_dash s"
  have le: "length (replace_double_dash t) \<le> length t" for t
    by (induction t rule: replace_double_dash.induct) auto
  have "has_double_dash t \<Longrightarrow> length (replace_double_dash t) < length t" for t
  proof (induction t rule: replace_double_dash.induct)
    case (1 a b cs)
    then show ?case using le [of cs] by auto
  qed simp_all
  then show "(replace_double_dash s, s) \<in> measure length"
    using dd by simp
qed

definition strip_char :: "char \<Rightarrow> string \<Rightarrow> string" where
  \<comment> \<open>\<open>s.strip(c)\<close> for a one-character argument.\<close>
  "strip_char c s = rev (dropWhile (\<lambda>x. x = c) (rev (dropWhile (\<lambda>x. x = c) s)))"

definition sanitize_filename :: "string \<Rightarrow> string" where
  "sanitize_filename filename =
     (if filename = [] then ''untitled''
      else let sanitized = map sanitize_char filename;
               sanitized = collapse_dashes sanitized;
               sanitized = take 100 (strip_char CHR ''-'' sanitized)
           in if sanitized \<noteq> [] then sanitized else ''untitled'')"


subsection \<open>Values, dictionaries and exceptions\<close>

text \<open>
  The values that a field of a deserialised JSON document holds here: \<open>None\<close> (JSON
  null), an integer or a string. A dictionary is a map from keys to values; an absent key
  is \<open>None\<close> of the option type.
\<close>

datatype pyval = PNone | PInt int | PStr string

datatype exn = TypeError | AttributeError | ValueError | IndexError

type_synonym entry = "string \<rightharpoonup> pyval"

definition bind_exn :: "exn + 'a \<Rightarrow> ('a \<Rightarrow> exn + 'b) \<Rightarrow> exn + 'b" where
  \<comment> \<open>Sequencing: an exception raised by the first step skips the rest.\<close>
  "bind_exn m f = (case m of Inl e \<Rightarrow> Inl e | Inr x \<Rightarrow> f x)"

definition get_or :: "entry \<Rightarrow> string \<Rightarrow> pyval \<Rightarrow> pyval" where
  \<comment> \<open>\<open>d.get(k, default)\<close>\<close>
  "get_or d k dflt = (case d k of None \<Rightarrow> dflt | Some v \<Rightarrow> v)"

definition get :: "entry \<Rightarrow> string \<Rightarrow> pyval" where
  \<comment> \<open>\<open>d.get(k)\<close>\<close>
  "get d k = get_or d k PNone"

fun truthy :: "pyval \<Rightarrow> bool" where
  "truthy PNone = False"
| "truthy (PInt n) = (n \<noteq> 0)"
| "truthy (PStr s) = (s \<noteq> [])"

definition digit_char :: "int \<Rightarrow> char" where
  "digit_char n = ''0123456789'' ! nat n"

function show_digits :: "int \<Rightarrow> string" where
  \<comment> \<open>The decimal digits of a non-negative integer.\<close>
  "show_digits n =
     (if n < 10 then [digit_char n] else show_digits (n div 10) @ [digit_char (n mod 10)])"
  by pat_completeness auto
termination
  by (relation "measure nat") auto

definition show_int :: "int \<Rightarrow> string" where
  \<comment> \<open>\<open>str(i)\<close>\<close>
  "show_int i = (if i < 0 then CHR ''-'' # show_digits (- i) else show_digits i)"

fun py_str :: "pyval \<Rightarrow> string" where
  \<comment> \<open>What an f-string puts for \<open>{v}\<close>.\<close>
  "py_str PNone = ''None''"
| "py_str (PInt n) = show_int n"
| "py_str (PStr s) = s"

definition is_space :: "char \<Rightarrow> bool" where
  \<comment> \<open>\<open>str.isspace\<close> on the code points below 256.\<close>
  "is_space c = (let n = (of_char c :: int) in
     (9 \<le> n \<and> n \<le> 13) \<or> (28 \<le> n \<and> n \<le> 32) \<or> n = 133 \<or> n = 160)"

definition strip :: "string \<Rightarrow> string" where
  \<comment> \<open>\<open>s.strip()\<close>\<close>
  "strip s = rev (dropWhile is_space (rev (dropWhile is_space s)))"

fun split_acc :: "string \<Rightarrow> string \<Rightarrow> string list" where
  "split_acc [] w = (if w = [] then [] else [w])"
| "split_acc (c # cs) w =
     (if is_space c then (if w = [] then split_acc cs [] else w # split_acc cs [])
      else split_acc cs (w @ [c]))"

definition split :: "string \<Rightarrow> string list" where
  \<comment> \<open>\<open>s.split()\<close>: the maximal runs of non-whitespace characters.\<close>
  "split s = split_acc s []"

definition py_strip :: "pyval \<Rightarrow> exn + string" where
  \<comment> \<open>\<open>v.strip()\<close>: only a string has the method.\<close>
  "py_strip v = (case v of PStr s \<Rightarrow> Inr (strip s) | _ \<Rightarrow> Inl AttributeError)"

definition py_split :: "pyval \<Rightarrow> exn + string list" where
  "py_split v = (case v of PStr s \<Rightarrow> Inr (split s) | _ \<Rightarrow> Inl AttributeError)"

definition replace_Z :: "string \<Rightarrow> string" where
  \<comment> \<open>\<open>s.replace('Z', '+00:00')\<close>: every occurrence.\<close>
  "replace_Z s = concat (map (\<lambda>c. if c = CHR ''Z'' then ''+00:00'' else [c]) s)"

definition endswith_Z :: "string \<Rightarrow> bool" where
  "endswith_Z s = (s \<noteq> [] \<and> last s = CHR ''Z'')"

fun join :: "string \<Rightarrow> string list \<Rightarrow> string" where
  \<comment> \<open>\<open>sep.join(xs)\<close>\<close>
  "join sep [] = []"
| "join sep [x] = x"
| "join sep (x # y # ys) = x @ sep @ join sep (y # ys)"

subsection \<open>The datetime library\<close>

text \<open>
  The functions of Python's \<open>datetime\<close> module that the converter calls are library code.
  They are modelled from the library's documentation: \<open>datetime.fromisoformat\<close> accepts
  the format \<open>YYYY-MM-DD[*HH[:MM[:SS[.fff[fff]]]][+HH:MM[:SS[.ffffff]]]]\<close>, where \<open>*\<close>
  is any single character, and raises \<open>ValueError\<close> (here: returns \<open>None\<close>) otherwise;
  the difference of two datetimes is a \<open>timedelta\<close>, normalised so that its
  \<open>seconds\<close> field lies in \<open>0..86399\<close>; mixing a datetime that carries an offset with
  one that does not raises \<open>TypeError\<close>; \<open>strftime\<close> uses the English names of the C locale.
\<close>

record datetime =
  dt_year :: int
  dt_month :: int
  dt_day :: int
  dt_hour :: int
  dt_minute :: int
  dt_second :: int
  dt_microsecond :: int
  dt_utcoffset :: "int option"  \<comment> \<open>in microseconds; \<open>None\<close> for a naive datetime\<close>

definition is_digit :: "char \<Rightarrow> bool" where
  "is_digit c = (let n = (of_char c :: int) in 48 \<le> n \<and> n \<le> 57)"

definition parse_num :: "string \<Rightarrow> int option" where
  \<comment> \<open>A non-empty run of decimal digits.\<close>
  "parse_num s = (if s \<noteq> [] \<and> list_all is_digit s
                  then Some (foldl (\<lambda>a c. 10 * a + (of_char c - 48)) 0 s) else None)"

definition parse_date :: "string \<Rightarrow> (int \<times> int \<times> int) option" where
  \<comment> \<open>\<open>YYYY-MM-DD\<close>, exactly ten characters.\<close>
  "parse_date s =
     (if length s = 10 \<and> s ! 4 = CHR ''-'' \<and> s ! 7 = CHR ''-'' then
        (case (parse_num (take 4 s), parse_num (take 2 (drop 5 s)), parse_num (drop 8 s)) of
           (Some y, Some m, Some d) \<Rightarrow> Some (y, m, d)
         | _ \<Rightarrow> None)
      else None)"

definition parse_hh_mm_ss_ff :: "nat list \<Rightarrow> string \<Rightarrow> (int \<times> int \<times> int \<times> int) option" where
  \<comment> \<open>\<open>HH[:MM[:SS[.fff[fff]]]]\<close>; the first argument lists the lengths that are allowed.\<close>
  "parse_hh_mm_ss_ff lens s =
     (let n = length s in
      if n \<notin> set lens then None
      else
        (case parse_num (take 2 s) of None \<Rightarrow> None | Some h \<Rightarrow>
         if n = 2 then Some (h, 0, 0, 0)
         else if s ! 2 \<noteq> CHR '':'' then None
         else (case parse_num (take 2 (drop 3 s)) of None \<Rightarrow> None | Some m \<Rightarrow>
         if n = 5 then Some (h, m, 0, 0)
         else if s ! 5 \<noteq> CHR '':'' then None
         else (case parse_num (take 2 (drop 6 s)) of None \<Rightarrow> None | Some sec \<Rightarrow>
         if n = 8 then Some (h, m, sec, 0)
         else if s ! 8 \<noteq> CHR ''.'' then None
         else (case parse_num (drop 9 s) of None \<Rightarrow> None | Some f \<Rightarrow>
         Some (h, m, sec, if n = 12 then f * 1000 else f))))))"

definition parse_tz :: "string \<Rightarrow> int option" where
  \<comment> \<open>\<open>+HH:MM[:SS[.ffffff]]\<close> or the same with \<open>-\<close>; the offset in microseconds, which
      must lie strictly between minus and plus one day.\<close>
  "parse_tz s =
     (case s of [] \<Rightarrow> None
      | sg # rest \<Rightarrow>
          (case parse_hh_mm_ss_ff [5, 8, 15] rest of None \<Rightarrow> None
           | Some (h, m, sec, f) \<Rightarrow>
               (let off = ((h * 3600) + (m * 60) + sec) * 1000000 + f in
                if off < 86400000000
                then Some (if sg = CHR ''-'' then - off else off) else None)))"

definition is_leap :: "int \<Rightarrow> bool" where
  "is_leap y = (y mod 4 = 0 \<and> (y mod 100 \<noteq> 0 \<or> y mod 400 = 0))"

definition days_in_month :: "int \<Rightarrow> int \<Rightarrow> int" where
  "days_in_month y m =
     (if m = 2 then (if is_leap y then 29 else 28)
      else if m = 4 \<or> m = 6 \<or> m = 9 \<or> m = 11 then 30 else 31)"

definition new_datetime ::
  "int \<Rightarrow> int \<Rightarrow> int \<Rightarrow> int \<Rightarrow> int \<Rightarrow> int \<Rightarrow> int \<Rightarrow> int option \<Rightarrow> datetime option" where
  \<comment> \<open>The constructor with its range checks.\<close>
  "new_datetime y m d h mi sec us off =
     (if 1 \<le> y \<and> y \<le> 9999 \<and> 1 \<le> m \<and> m \<le> 12 \<and> 1 \<le> d \<and> d \<le> days_in_month y m \<and>
         0 \<le> h \<and> h \<le> 23 \<and> 0 \<le> mi \<and> mi \<le> 59 \<and> 0 \<le> sec \<and> sec \<le> 59 \<and>
         0 \<le> us \<and> us \<le> 999999
      then Some \<lparr>dt_year = y, dt_month = m, dt_day = d, dt_hour = h, dt_minute = mi,
                 dt_second = sec, dt_microsecond = us, dt_utcoffset = off\<rparr>
      else None)"

definition is_sign :: "char \<Rightarrow> bool" where
  "is_sign c = (c = CHR ''+'' \<or> c = CHR ''-'')"

definition fromisoformat :: "string \<Rightarrow> datetime option" where
  "fromisoformat s =
     (case parse_date (take 10 s) of None \<Rightarrow> None
      | Some (y, m, d) \<Rightarrow>
          if length s = 10 then new_datetime y m d 0 0 0 0 None
          else
            (let rest = drop 11 s;
                 tpart = takeWhile (\<lambda>c. \<not> is_sign c) rest;
                 zpart = dropWhile (\<lambda>c. \<not> is_sign c) rest
             in case parse_hh_mm_ss_ff [2, 5, 8, 12, 15] tpart of None \<Rightarrow> None
                | Some (h, mi, sec, us) \<Rightarrow>
                    if zpart = [] then new_datetime y m d h mi sec us None
                    else (case parse_tz zpart of None \<Rightarrow> None
                          | Some off \<Rightarrow> new_datetime y m d h mi sec us (Some off))))"

definition days_before_year :: "int \<Rightarrow> int" where
  "days_before_year y = (let p = y - 1 in p * 365 + p div 4 - p div 100 + p div 400)"

definition days_before_month :: "int \<Rightarrow> int \<Rightarrow> int" where
  \<comment> \<open>The days of the year before the first day of month \<open>m\<close> (1 to 12).\<close>
  "days_before_month y m =
     [0, 31, 59, 90, 120, 151, 181, 212, 243, 273, 304, 334] ! nat (m - 1)
     + (if m > 2 \<and> is_leap y then 1 else 0)"

definition toordinal :: "datetime \<Rightarrow> int" where
  \<comment> \<open>Day number, 1 for 1 January of year 1.\<close>
  "toordinal dt = days_before_year (dt_year dt) + days_before_month (dt_year dt) (dt_month dt) + dt_day dt"

definition weekday :: "datetime \<Rightarrow> int" where
  \<comment> \<open>0 for Monday.\<close>
  "weekday dt = (toordinal dt + 6) mod 7"

definition local_us :: "datetime \<Rightarrow> int" where
  \<comment> \<open>Microseconds of the wall-clock reading since the start of day 0.\<close>
  "local_us dt =
     ((toordinal dt * 86400 + dt_hour dt * 3600 + dt_minute dt * 60 + dt_second dt) * 1000000)
     + dt_microsecond dt"

definition dt_sub :: "datetime \<Rightarrow> datetime \<Rightarrow> exn + int" where
  \<comment> \<open>\<open>a - b\<close>: the timedelta, as its total number of microseconds.\<close>
  "dt_sub a b =
     (case (dt_utcoffset a, dt_utcoffset b) of
        (None, None) \<Rightarrow> Inr (local_us a - local_us b)
      | (Some oa, Some ob) \<Rightarrow> Inr ((local_us a - oa) - (local_us b - ob))
      | _ \<Rightarrow> Inl TypeError)"

definition td_days :: "int \<Rightarrow> int" where
  "td_days us = us div 86400000000"

definition td_seconds :: "int \<Rightarrow> int" where
  \<comment> \<open>The \<open>seconds\<close> field of the normalised timedelta.\<close>
  "td_seconds us = (us div 1000000) mod 86400"

definition pad2 :: "int \<Rightarrow> string" where
  \<comment> \<open>Two digits, zero-padded (\<open>%d\<close>, \<open>%H\<close>, \<open>%I\<close>, \<open>%M\<close>, \<open>%S\<close>).\<close>
  "pad2 n = (if n < 10 then CHR ''0'' # show_digits n else show_digits n)"

definition pad4 :: "int \<Rightarrow> string" where
  \<comment> \<open>\<open>%Y\<close>, padded to four digits.\<close>
  "pad4 n = replicate (4 - length (show_digits n)) CHR ''0'' @ show_digits n"

definition weekday_names :: "string list" where
  "weekday_names = [''Monday'', ''Tuesday'', ''Wednesday'', ''Thursday'', ''Friday'',
                    ''Saturday'', ''Sunday'']"

definition month_names :: "string list" where
  "month_names = [''January'', ''February'', ''March'', ''April'', ''May'', ''June'', ''July'',
                  ''August'', ''September'', ''October'', ''November'', ''December'']"

definition hour12 :: "int \<Rightarrow> int" where
  "hour12 h = (if h mod 12 = 0 then 12 else h mod 12)"

definition strftime_display :: "datetime \<Rightarrow> string" where
  \<comment> \<open>\<open>dt.strftime('%A, %B %d, %Y at %I:%M %p')\<close>\<close>
  "strftime_display dt =
     weekday_names ! nat (weekday dt) @ '', '' @ month_names ! nat (dt_month dt - 1) @ '' ''
     @ pad2 (dt_day dt) @ '', '' @ pad4 (dt_year dt) @ '' at ''
     @ pad2 (hour12 (dt_hour dt)) @ '':'' @ pad2 (dt_minute dt) @ '' ''
     @ (if dt_hour dt < 12 then ''AM'' else ''PM'')"

definition strftime_hms :: "datetime \<Rightarrow> string" where
  \<comment> \<open>\<open>dt.strftime('%H:%M:%S')\<close>\<close>
  "strftime_hms dt = pad2 (dt_hour dt) @ '':'' @ pad2 (dt_minute dt) @ '':'' @ pad2 (dt_second dt)"

subsection \<open>Formatting dates and timestamps\<close>

definition format_datetime_body :: "pyval \<Rightarrow> exn + pyval" where
  \<comment> \<open>The body of the \<open>try\<close>: \<open>replace\<close> exists on strings only, \<open>fromisoformat\<close> may
      raise \<open>ValueError\<close>.\<close>
  "format_datetime_body iso_string =
     (case iso_string of
        PStr s \<Rightarrow>
          (case fromisoformat (replace_Z s) of
             None \<Rightarrow> Inl ValueError
           | Some dt \<Rightarrow> Inr (PStr (strftime_display dt)))
      | _ \<Rightarrow> Inl AttributeError)"

definition format_datetime :: "pyval \<Rightarrow> pyval" where
  \<comment> \<open>\<open>except Exception: return iso_string\<close>\<close>
  "format_datetime iso_string =
     (case format_datetime_body iso_string of Inr r \<Rightarrow> r | Inl _ \<Rightarrow> iso_string)"

definition format_timestamp_body :: "pyval \<Rightarrow> exn + pyval" where
  "format_timestamp_body timestamp_str =
     (case timestamp_str of
        PStr s \<Rightarrow>
          (case (if endswith_Z s then fromisoformat (replace_Z s) else fromisoformat s) of
             None \<Rightarrow> Inl ValueError
           | Some dt \<Rightarrow> Inr (PStr (strftime_hms dt)))
      | _ \<Rightarrow> Inl AttributeError)"

definition format_timestamp :: "pyval \<Rightarrow> pyval" where
  "format_timestamp timestamp_str =
     (case format_timestamp_body timestamp_str of Inr r \<Rightarrow> r | Inl _ \<Rightarrow> timestamp_str)"

subsection \<open>format\_transcript\_entries\<close>

fun is_int :: "pyval \<Rightarrow> bool" where
  "is_int (PInt n) = True"
| "is_int v = False"

fun is_str :: "pyval \<Rightarrow> bool" where
  "is_str (PStr s) = True"
| "is_str v = False"

fun the_int :: "pyval \<Rightarrow> int" where
  "the_int (PInt n) = n"
| "the_int v = 0"

fun the_str :: "pyval \<Rightarrow> string" where
  "the_str (PStr s) = s"
| "the_str v = []"

definition py_sorted :: "('a \<Rightarrow> pyval) \<Rightarrow> 'a list \<Rightarrow> exn + 'a list" where
  \<comment> \<open>\<open>sorted(xs, key=key)\<close>: a stable sort that compares the keys with \<open><\<close>. Integers
      compare by value and strings lexicographically by code point; comparing values of
      two different types, or \<open>None\<close> with anything, raises \<open>TypeError\<close>. A list of at
      most one element is returned without any comparison.\<close>
  "py_sorted key xs =
     (if length xs \<le> 1 then Inr xs
      else if list_all (\<lambda>x. is_int (key x)) xs then Inr (sort_key (\<lambda>x. the_int (key x)) xs)
      else if list_all (\<lambda>x. is_str (key x)) xs then Inr (sort_key (\<lambda>x. the_str (key x)) xs)
      else Inl TypeError)"

definition sort_entries_body :: "entry list \<Rightarrow> exn + entry list" where
  \<comment> \<open>The body of the \<open>try\<close> that chooses the order, from the first entry alone.\<close>
  "sort_entries_body entries =
     (case entries of
        [] \<Rightarrow> Inl IndexError
      | first # _ \<Rightarrow>
          if first ''sequence_number'' \<noteq> None
          then py_sorted (\<lambda>x. get_or x ''sequence_number'' (PInt 0)) entries
          else if first ''start_timestamp'' \<noteq> None
          then py_sorted (\<lambda>x. get_or x ''start_timestamp'' (PStr [])) entries
          else Inr entries)"

definition sort_entries :: "entry list \<Rightarrow> exn + entry list" where
  \<comment> \<open>\<open>except (IndexError, TypeError): sorted_entries = entries\<close>\<close>
  "sort_entries entries =
     (case sort_entries_body entries of
        Inr sorted_entries \<Rightarrow> Inr sorted_entries
      | Inl IndexError \<Rightarrow> Inr entries
      | Inl TypeError \<Rightarrow> Inr entries
      | Inl e \<Rightarrow> Inl e)"

fun format_lines :: "entry list \<Rightarrow> exn + string list" where
  \<comment> \<open>The \<open>for\<close> loop that fills \<open>formatted_lines\<close>.\<close>
  "format_lines [] = Inr []"
| "format_lines (entry # rest) =
     (case py_strip (get_or entry ''text'' (PStr [])) of
        Inl e \<Rightarrow> Inl e
      | Inr text \<Rightarrow>
          if text = [] then format_lines rest
          else
            (let source = get_or entry ''source'' (PStr []);
                 speaker = get_or entry ''speaker'' (PStr []);
                 speaker_name =
                   (if source = PStr ''microphone'' then PStr ''me''
                    else if truthy speaker then speaker
                    else PStr ''them'');
                 start_timestamp = get entry ''start_timestamp'';
                 line =
                   (if truthy start_timestamp
                    then ''**['' @ py_str (format_timestamp start_timestamp) @ ''] ''
                         @ py_str speaker_name @ '':** '' @ text
                    else ''**'' @ py_str speaker_name @ '':** '' @ text)
             in case format_lines rest of
                  Inl e \<Rightarrow> Inl e
                | Inr formatted_lines \<Rightarrow> Inr (line # formatted_lines)))"

definition format_transcript_entries :: "entry list \<Rightarrow> exn + string" where
  "format_transcript_entries entries =
     (if entries = [] then Inr ''*No transcript available*''
      else
        bind_exn (sort_entries entries) (\<lambda>sorted_entries.
        bind_exn (format_lines sorted_entries) (\<lambda>formatted_lines.
        Inr (join [CHR 0x0A, CHR 0x0A] formatted_lines))))"

subsection \<open>calculate\_duration\<close>

definition py_min :: "pyval list \<Rightarrow> exn + pyval" where
  \<comment> \<open>\<open>min(xs)\<close>, with the comparisons of \<open>sorted\<close>.\<close>
  "py_min xs =
     (case xs of
        [] \<Rightarrow> Inl ValueError
      | x # rest \<Rightarrow>
          if rest = [] then Inr x
          else if list_all is_int xs then Inr (PInt (fold min (map the_int rest) (the_int x)))
          else if list_all is_str xs then Inr (PStr (fold min (map the_str rest) (the_str x)))
          else Inl TypeError)"

definition py_max :: "pyval list \<Rightarrow> exn + pyval" where
  "py_max xs =
     (case xs of
        [] \<Rightarrow> Inl ValueError
      | x # rest \<Rightarrow>
          if rest = [] then Inr x
          else if list_all is_int xs then Inr (PInt (fold max (map the_int rest) (the_int x)))
          else if list_all is_str xs then Inr (PStr (fold max (map the_str rest) (the_str x)))
          else Inl TypeError)"

definition py_replace_Z :: "pyval \<Rightarrow> exn + string" where
  "py_replace_Z v = (case v of PStr s \<Rightarrow> Inr (replace_Z s) | _ \<Rightarrow> Inl AttributeError)"

definition py_fromisoformat :: "string \<Rightarrow> exn + datetime" where
  "py_fromisoformat s = (case fromisoformat s of None \<Rightarrow> Inl ValueError | Some dt \<Rightarrow> Inr dt)"

definition plural :: "bool \<Rightarrow> string" where
  \<comment> \<open>\<open>'s' if b else ''\<close>\<close>
  "plural b = (if b then ''s'' else [])"

definition render_duration :: "int \<Rightarrow> int \<Rightarrow> string" where
  \<comment> \<open>The two f-strings at the end of \<open>calculate_duration\<close>.\<close>
  "render_duration hours minutes =
     (if hours > 0
      then show_int hours @ '' hour'' @ plural (hours > 1) @ '' ''
           @ show_int minutes @ '' minute'' @ plural (minutes \<noteq> 1)
      else show_int minutes @ '' minute'' @ plural (minutes \<noteq> 1))"

definition calculate_duration_body :: "entry list \<Rightarrow> exn + string" where
  "calculate_duration_body entries =
     (if entries = [] then Inr ''Unknown''
      else
        (let start_times = filter truthy (map (\<lambda>e. get e ''start_timestamp'') entries);
             end_times = filter truthy (map (\<lambda>e. get e ''end_timestamp'') entries)
         in if start_times = [] \<or> end_times = [] then Inr ''Unknown''
            else
              bind_exn (py_min start_times) (\<lambda>first_start.
              bind_exn (py_replace_Z first_start) (\<lambda>start_str.
              bind_exn (py_fromisoformat start_str) (\<lambda>start_dt.
              bind_exn (py_max end_times) (\<lambda>last_end.
              bind_exn (py_replace_Z last_end) (\<lambda>end_str.
              bind_exn (py_fromisoformat end_str) (\<lambda>end_dt.
              bind_exn (dt_sub end_dt start_dt) (\<lambda>duration.
                (let hours = td_seconds duration div 3600;
                     minutes = (td_seconds duration mod 3600) div 60
                 in Inr (render_duration hours minutes)))))))))))"

definition calculate_duration :: "entry list \<Rightarrow> string" where
  \<comment> \<open>\<open>except Exception: return "Unknown"\<close>\<close>
  "calculate_duration entries =
     (case calculate_duration_body entries of Inr r \<Rightarrow> r | Inl _ \<Rightarrow> ''Unknown'')"

subsection \<open>get\_transcript\_stats\<close>

record stats =
  total_entries :: nat
  speakers :: nat
  words :: nat

fun stats_loop :: "entry list \<Rightarrow> pyval set \<Rightarrow> nat \<Rightarrow> exn + (pyval set \<times> nat)" where
  \<comment> \<open>The \<open>for\<close> loop, with the set \<open>speakers\<close> and the counter \<open>total_words\<close> as state.\<close>
  "stats_loop [] spk total_words = Inr (spk, total_words)"
| "stats_loop (entry # rest) spk total_words =
     (let source = get_or entry ''source'' (PStr []);
          speaker = get_or entry ''speaker'' (PStr []);
          spk' =
            (if source = PStr ''microphone'' then insert (PStr ''me'') spk
             else if truthy speaker then insert speaker spk
             else insert (PStr ''them'') spk);
          text = get_or entry ''text'' (PStr [])
      in case py_split text of
           Inl e \<Rightarrow> Inl e
         | Inr tokens \<Rightarrow> stats_loop rest spk' (total_words + length tokens))"

definition get_transcript_stats :: "entry list \<Rightarrow> exn + stats" where
  "get_transcript_stats entries =
     (if entries = [] then Inr \<lparr>total_entries = 0, speakers = 0, words = 0\<rparr>
      else
        (case stats_loop entries {} 0 of
           Inl e \<Rightarrow> Inl e
         | Inr (spk, total_words) \<Rightarrow>
             Inr \<lparr>total_entries = length entries, speakers = card spk, words = total_words\<rparr>))"

subsection \<open>generate\_markdown\<close>

text \<open>
  The dictionary \<open>transcript_data\<close> is read through \<open>get\<close> at five keys only; it is a
  record of these five fields, each of them absent (\<open>None\<close>) or present.
\<close>

record meeting =
  title :: "pyval option"
  created_at :: "pyval option"
  updated_at :: "pyval option"
  document_id :: "pyval option"
  transcript_entries :: "entry list option"

definition nl :: string where
  "nl = [CHR 0x0A]"

definition assemble ::
  "string \<Rightarrow> string \<Rightarrow> string \<Rightarrow> string \<Rightarrow> string \<Rightarrow> stats \<Rightarrow> string \<Rightarrow> string" where
  \<comment> \<open>The f-string template of \<open>markdown_content\<close>.\<close>
  "assemble ttl formatted_created formatted_updated duration doc_id st formatted_transcript =
     ''# '' @ ttl @ nl @ nl
     @ ''**Date:** '' @ formatted_created @ nl
     @ ''**Updated:** '' @ formatted_updated @ nl
     @ ''**Duration:** '' @ duration @ nl
     @ ''**Document ID:** '' @ [CHR 0x60] @ doc_id @ [CHR 0x60] @ nl @ nl
     @ ''---'' @ nl @ nl
     @ ''## Meeting Statistics'' @ nl @ nl
     @ ''- **Total Entries:** '' @ show_int (int (total_entries st)) @ nl
     @ ''- **Speakers:** '' @ show_int (int (speakers st)) @ nl
     @ ''- **Total Words:** '' @ show_int (int (words st)) @ nl @ nl
     @ ''---'' @ nl @ nl
     @ ''## Transcript'' @ nl @ nl
     @ formatted_transcript @ nl @ nl
     @ ''---'' @ nl @ nl
     @ ''*This transcript was downloaded and converted from Granola AI*'' @ nl"

definition formatted_date :: "pyval \<Rightarrow> pyval" where
  \<comment> \<open>\<open>format_datetime(x) if x else 'Unknown'\<close>, used for both dates.\<close>
  "formatted_date x = (if truthy x then format_datetime x else PStr ''Unknown'')"

definition field_or :: "'a option \<Rightarrow> 'a \<Rightarrow> 'a" where
  \<comment> \<open>\<open>transcript_data.get(key, default)\<close>, from the field of that key.\<close>
  "field_or x dflt = (case x of None \<Rightarrow> dflt | Some v \<Rightarrow> v)"

definition generate_markdown :: "meeting \<Rightarrow> exn + string" where
  "generate_markdown transcript_data =
     (let ttl = field_or (title transcript_data) (PStr ''Untitled Meeting'');
          created = field_or (created_at transcript_data) (PStr []);
          updated = field_or (updated_at transcript_data) (PStr []);
          doc_id = field_or (document_id transcript_data) (PStr []);
          entries = field_or (transcript_entries transcript_data) [];
          formatted_created = formatted_date created;
          formatted_updated = formatted_date updated
      in bind_exn (get_transcript_stats entries) (\<lambda>st.
         let duration = calculate_duration entries
         in bind_exn (format_transcript_entries entries) (\<lambda>formatted_transcript.
            Inr (assemble (py_str ttl) (py_str formatted_created) (py_str formatted_updated)
                   duration (py_str doc_id) st formatted_transcript))))"

section \<open>Properties\<close>

subsection \<open>Reference notions for the statements\<close>

fun squeeze_dashes :: "string \<Rightarrow> string" where
  \<comment> \<open>Reference function for the statement of the claim: every maximal run of dashes
      becomes one dash.\<close>
  "squeeze_dashes (a # b # cs) =
     (if a = CHR ''-'' \<and> b = CHR ''-'' then squeeze_dashes (b # cs)
      else a # squeeze_dashes (b # cs))"
| "squeeze_dashes cs = cs"

definition speaker_name :: "entry \<Rightarrow> pyval" where
  "speaker_name e =
     (if e ''source'' = Some (PStr ''microphone'') then PStr ''me''
      else (case e ''speaker'' of
              None \<Rightarrow> PStr ''them''
            | Some v \<Rightarrow> if truthy v then v else PStr ''them''))"

definition str_or_absent :: "pyval option \<Rightarrow> bool" where
  "str_or_absent x = (case x of None \<Rightarrow> True | Some v \<Rightarrow> is_str v)"

definition int_or_absent :: "pyval option \<Rightarrow> bool" where
  "int_or_absent x = (case x of None \<Rightarrow> True | Some v \<Rightarrow> is_int v)"

definition text_of :: "entry \<Rightarrow> string" where
  "text_of e = (case e ''text'' of Some (PStr s) \<Rightarrow> s | _ \<Rightarrow> [])"

definition line_of :: "entry \<Rightarrow> string" where
  "line_of e =
     (if truthy (get e ''start_timestamp'')
      then ''**['' @ py_str (format_timestamp (get e ''start_timestamp'')) @ ''] ''
           @ py_str (speaker_name e) @ '':** '' @ strip (text_of e)
      else ''**'' @ py_str (speaker_name e) @ '':** '' @ strip (text_of e))"

definition valid_entry :: "entry \<Rightarrow> bool" where
  "valid_entry e =
     (str_or_absent (e ''text'') \<and> str_or_absent (e ''source'') \<and> str_or_absent (e ''speaker'') \<and>
      str_or_absent (e ''start_timestamp'') \<and> str_or_absent (e ''end_timestamp'') \<and>
      int_or_absent (e ''sequence_number''))"

definition valid_meeting :: "meeting \<Rightarrow> bool" where
  "valid_meeting r =
     (str_or_absent (title r) \<and> str_or_absent (created_at r) \<and> str_or_absent (updated_at r) \<and>
      str_or_absent (document_id r) \<and> list_all valid_entry (field_or (transcript_entries r) []))"

definition sample_meeting :: meeting where
  "sample_meeting =
     \<lparr>title = Some (PStr ''Standup''), created_at = Some (PStr ''not a date''),
      updated_at = None, document_id = Some (PStr ''d1''),
      transcript_entries = Some
        [[''text'' \<mapsto> PStr ''hello there'', ''start_timestamp'' \<mapsto> PStr ''soon'',
          ''sequence_number'' \<mapsto> PInt 1],
         [''text'' \<mapsto> PStr '' '', ''source'' \<mapsto> PStr ''microphone'']]\<rparr>"

fun token_starts :: "char \<Rightarrow> string \<Rightarrow> nat" where
  \<comment> \<open>The number of characters of the string that are not whitespace and follow a
      whitespace character; the first argument is the character before the string.\<close>
  "token_starts p [] = 0"
| "token_starts p (c # cs) = (if is_space p \<and> \<not> is_space c then 1 else 0) + token_starts c cs"


definition seq_of :: "entry \<Rightarrow> int" where
  \<comment> \<open>The sequence number of an entry, 0 when it has none.\<close>
  "seq_of e = (case e ''sequence_number'' of Some (PInt n) \<Rightarrow> n | _ \<Rightarrow> 0)"

definition ts_of :: "entry \<Rightarrow> string" where
  \<comment> \<open>The start timestamp of an entry, the empty string when it has none.\<close>
  "ts_of e = (case e ''start_timestamp'' of Some (PStr s) \<Rightarrow> s | _ \<Rightarrow> [])"

definition entry_b2 :: entry where
  "entry_b2 = [''sequence_number'' \<mapsto> PInt 2, ''text'' \<mapsto> PStr ''b'']"

definition entry_a1 :: entry where
  "entry_a1 = [''sequence_number'' \<mapsto> PInt 1, ''text'' \<mapsto> PStr ''a'']"

definition entry_noseq :: entry where
  "entry_noseq = [''text'' \<mapsto> PStr ''c'']"

definition start_strings :: "entry list \<Rightarrow> string list" where
  \<comment> \<open>The non-empty start timestamps, in list order.\<close>
  "start_strings es = map the_str (filter truthy (map (\<lambda>e. get e ''start_timestamp'') es))"

definition end_strings :: "entry list \<Rightarrow> string list" where
  "end_strings es = map the_str (filter truthy (map (\<lambda>e. get e ''end_timestamp'') es))"

definition timestamps_are_strings :: "entry list \<Rightarrow> bool" where
  \<comment> \<open>Every timestamp that counts as present is a string.\<close>
  "timestamps_are_strings es =
     (list_all is_str (filter truthy (map (\<lambda>e. get e ''start_timestamp'') es)) \<and>
      list_all is_str (filter truthy (map (\<lambda>e. get e ''end_timestamp'') es)))"

definition subst_trailing_Z :: "string \<Rightarrow> string" where
  \<comment> \<open>The substitution as the claim words it: a \<open>Z\<close> at the end becomes \<open>+00:00\<close>.\<close>
  "subst_trailing_Z s = (if endswith_Z s then butlast s @ ''+00:00'' else s)"

definition duration_claimed :: "entry list \<Rightarrow> string" where
  \<comment> \<open>The duration as the claim words it: trailing substitution, the whole wall-clock
      difference in hours and minutes.\<close>
  "duration_claimed es =
     (let ss = start_strings es; ee = end_strings es
      in if ss = [] \<or> ee = [] then ''Unknown''
         else (case (fromisoformat (subst_trailing_Z (Min (set ss))),
                     fromisoformat (subst_trailing_Z (Max (set ee)))) of
                 (Some a, Some b) \<Rightarrow>
                   (case dt_sub b a of
                      Inl e \<Rightarrow> ''Unknown''
                    | Inr d \<Rightarrow> render_duration (d div 3600000000) ((d div 60000000) mod 60))
               | _ \<Rightarrow> ''Unknown''))"

definition span :: "string \<Rightarrow> string \<Rightarrow> entry list" where
  \<comment> \<open>A one-entry list with the two timestamps.\<close>
  "span s e = [[''start_timestamp'' \<mapsto> PStr s, ''end_timestamp'' \<mapsto> PStr e]]"

subsection \<open>sanitize\_filename\<close>

lemma no_dd_collapse: "\<not> has_double_dash (collapse_dashes s)"
  by (induction s rule: collapse_dashes.induct) (simp split: if_splits)

lemma squeeze_Cons:
  "squeeze_dashes (x # ys) =
     (case squeeze_dashes ys of [] \<Rightarrow> [x]
      | y # _ \<Rightarrow> if x = CHR ''-'' \<and> y = CHR ''-'' then squeeze_dashes ys else x # squeeze_dashes ys)"
  by (induction ys rule: squeeze_dashes.induct) (auto split: list.splits)

lemma squeeze_replace: "squeeze_dashes (replace_double_dash s) = squeeze_dashes s"
proof (induction s rule: replace_double_dash.induct)
  case (1 a b cs)
  show ?case
  proof (cases "a = CHR ''-'' \<and> b = CHR ''-''")
    case True
    then have ih: "squeeze_dashes (replace_double_dash cs) = squeeze_dashes cs"
      using 1(1) by simp
    have "squeeze_dashes (CHR ''-'' # replace_double_dash cs) = squeeze_dashes (CHR ''-'' # cs)"
      by (simp only: squeeze_Cons [of _ "replace_double_dash cs"] squeeze_Cons [of _ cs] ih)
    moreover have "replace_double_dash (a # b # cs) = CHR ''-'' # replace_double_dash cs"
      using True by simp
    moreover have "squeeze_dashes (a # b # cs) = squeeze_dashes (CHR ''-'' # cs)"
      using True by simp
    ultimately show ?thesis by (simp only:)
  next
    case False
    then have ih: "squeeze_dashes (replace_double_dash (b # cs)) = squeeze_dashes (b # cs)"
      using 1(2) by simp
    have "squeeze_dashes (a # replace_double_dash (b # cs)) = squeeze_dashes (a # b # cs)"
      by (simp only: squeeze_Cons [of a "replace_double_dash (b # cs)"] squeeze_Cons [of a "b # cs"] ih)
    moreover have "replace_double_dash (a # b # cs) = a # replace_double_dash (b # cs)"
      using False by auto
    ultimately show ?thesis by (simp only:)
  qed
qed simp_all

lemma squeeze_id: "\<not> has_double_dash s \<Longrightarrow> squeeze_dashes s = s"
  by (induction s rule: squeeze_dashes.induct) auto

lemma collapse_squeeze: "collapse_dashes s = squeeze_dashes s"
proof (induction s rule: collapse_dashes.induct)
  case (1 s)
  show ?case
  proof (cases "has_double_dash s")
    case True
    then show ?thesis using 1 by (simp add: squeeze_replace)
  next
    case False
    then show ?thesis by (simp add: squeeze_id)
  qed
qed

lemma set_squeeze: "set (squeeze_dashes s) \<subseteq> set s"
  by (induction s rule: squeeze_dashes.induct) auto

lemma has_dd_append: "has_double_dash (xs @ ys) \<Longrightarrow> \<not> has_double_dash xs \<Longrightarrow> \<not> has_double_dash ys \<Longrightarrow>
  xs \<noteq> [] \<and> ys \<noteq> [] \<and> last xs = CHR ''-'' \<and> hd ys = CHR ''-''"
  apply (induction xs rule: has_double_dash.induct)
  apply (auto split: if_splits)
  apply (cases ys; auto)+
  done

lemma no_dd_suffix: "\<not> has_double_dash (xs @ ys) \<Longrightarrow> \<not> has_double_dash ys"
  by (induction xs rule: has_double_dash.induct) (auto, (cases ys; auto)+)

lemma has_dd_prefix: "has_double_dash xs \<Longrightarrow> has_double_dash (xs @ ys)"
  by (induction xs rule: has_double_dash.induct) auto

lemma no_dd_prefix: "\<not> has_double_dash (xs @ ys) \<Longrightarrow> \<not> has_double_dash xs"
  using has_dd_prefix by blast

lemma no_dd_take: "\<not> has_double_dash s \<Longrightarrow> \<not> has_double_dash (take n s)"
  using no_dd_prefix [of "take n s" "drop n s"] by simp

lemma no_dd_dropWhile: "\<not> has_double_dash s \<Longrightarrow> \<not> has_double_dash (dropWhile P s)"
  using no_dd_suffix [of "takeWhile P s" "dropWhile P s"] by simp


lemma no_dd_rev: "has_double_dash (rev s) = has_double_dash s"
proof (induction s rule: has_double_dash.induct)
  case (1 a b cs)
  have app: "\<And>xs y z. has_double_dash (xs @ [y, z]) = (has_double_dash (xs @ [y]) \<or> (y = CHR ''-'' \<and> z = CHR ''-''))"
  proof -
    fix xs :: string and y z
    show "has_double_dash (xs @ [y, z]) = (has_double_dash (xs @ [y]) \<or> (y = CHR ''-'' \<and> z = CHR ''-''))"
      by (induction xs rule: has_double_dash.induct) auto
  qed
  show ?case using 1 app [of "rev cs" b a] by auto
qed simp_all


lemma no_dd_strip: "\<not> has_double_dash s \<Longrightarrow> \<not> has_double_dash (strip_char c s)"
  by (simp add: strip_char_def no_dd_rev no_dd_dropWhile)

lemma set_strip: "set (strip_char c s) \<subseteq> set s"
  by (auto simp: strip_char_def dest!: set_dropWhileD)


lemma printable_dash: "printable CHR ''-''"
  by (simp add: printable_def)

lemma sanitize_char_ok: "printable (sanitize_char c) \<and> sanitize_char c \<notin> set unsafe_chars"
  unfolding sanitize_char_def using printable_dash by (simp add: unsafe_chars_def)


lemma untitled_ok:
  "(\<forall>c \<in> set ''untitled''. printable c \<and> c \<notin> set unsafe_chars) \<and> \<not> has_double_dash ''untitled''"
  by (simp add: printable_def unsafe_chars_def)

lemma sanitize_filename_eq:
  "sanitize_filename s =
     (let t = take 100 (strip_char CHR ''-'' (squeeze_dashes (map sanitize_char s)))
      in if s = [] \<or> t = [] then ''untitled'' else t)"
  unfolding sanitize_filename_def Let_def collapse_squeeze by simp


text \<open>
  Claim C9. For every input string, \<open>sanitize_filename\<close> returns a non-empty string of
  at most 100 characters, none of them one of the unsafe characters
  \<open>< > : " / \ | ? *\<close> and none outside \<open>string.printable\<close>, with no two dashes in a
  row; the result is the sanitised input with every run of dashes squeezed to one dash,
  then stripped of leading and trailing dashes, then cut to 100 characters, and it is
  \<open>untitled\<close> when the input or that string is empty.
\<close>

theorem sanitize_filename_spec:
  "sanitize_filename s \<noteq> [] \<and> length (sanitize_filename s) \<le> 100 \<and>
   (\<forall>c \<in> set (sanitize_filename s). printable c \<and> c \<notin> set unsafe_chars) \<and>
   \<not> has_double_dash (sanitize_filename s) \<and>
   sanitize_filename s =
     (if s = [] \<or> take 100 (strip_char CHR ''-'' (squeeze_dashes (map sanitize_char s))) = []
      then ''untitled''
      else take 100 (strip_char CHR ''-'' (squeeze_dashes (map sanitize_char s))))"
proof -
  let ?t = "take 100 (strip_char CHR ''-'' (squeeze_dashes (map sanitize_char s)))"
  have eq: "sanitize_filename s = (if s = [] \<or> ?t = [] then ''untitled'' else ?t)"
    using sanitize_filename_eq [of s] by (simp only: Let_def)
  have chars: "\<forall>c \<in> set ?t. printable c \<and> c \<notin> set unsafe_chars"
  proof
    fix c assume "c \<in> set ?t"
    then have "c \<in> set (strip_char CHR ''-'' (squeeze_dashes (map sanitize_char s)))"
      by (rule in_set_takeD)
    then have "c \<in> set (squeeze_dashes (map sanitize_char s))"
      using set_strip by blast
    then have "c \<in> set (map sanitize_char s)"
      using set_squeeze by blast
    then obtain d where "c = sanitize_char d" by auto
    then show "printable c \<and> c \<notin> set unsafe_chars"
      using sanitize_char_ok [of d] by simp
  qed
  have nodd: "\<not> has_double_dash ?t"
    using no_dd_collapse [of "map sanitize_char s"]
    by (simp only: collapse_squeeze no_dd_take no_dd_strip not_False_eq_True)
  have len: "length ?t \<le> 100" by simp
  show ?thesis
  proof (cases "s = [] \<or> ?t = []")
    case True
    then have r: "sanitize_filename s = ''untitled''" using eq by simp
    show ?thesis unfolding r using untitled_ok True by simp
  next
    case False
    then have r: "sanitize_filename s = ?t" using eq by simp
    show ?thesis unfolding r using False chars nodd len by simp
  qed
qed

theorem sanitize_filename_spec_witness:
  "sanitize_filename ''a<:--b*--'' = ''a-b'' \<and> ''a-b'' \<noteq> [] \<and> length ''a-b'' \<le> 100 \<and>
   list_all (\<lambda>c. printable c \<and> c \<notin> set unsafe_chars) ''a-b'' \<and> \<not> has_double_dash ''a-b''"
proof -
  have v: "sanitize_filename ''a<:--b*--'' = ''a-b''"
    by code_simp
  have "sanitize_filename ''a<:--b*--'' \<noteq> [] \<and> length (sanitize_filename ''a<:--b*--'') \<le> 100 \<and>
    (\<forall>c \<in> set (sanitize_filename ''a<:--b*--''). printable c \<and> c \<notin> set unsafe_chars) \<and>
    \<not> has_double_dash (sanitize_filename ''a<:--b*--'')"
    using sanitize_filename_spec [of "''a<:--b*--''"] by blast
  then show ?thesis unfolding v list_all_iff using v by blast
qed

subsection \<open>The renderer never raises\<close>

lemma bind_exn_Inr [simp]: "bind_exn (Inr x) f = f x"
  by (simp add: bind_exn_def)

lemma bind_exn_Inl [simp]: "bind_exn (Inl e) f = Inl e"
  by (simp add: bind_exn_def)

lemma get_or_text: "str_or_absent (e ''text'') \<Longrightarrow> get_or e ''text'' (PStr []) = PStr (text_of e)"
proof (cases "e ''text''")
  case None
  then show ?thesis by (simp add: get_or_def text_of_def)
next
  case (Some v)
  assume "str_or_absent (e ''text'')"
  with Some show ?thesis
    by (cases v) (simp_all add: get_or_def text_of_def str_or_absent_def)
qed

lemma stats_speaker:
  "(if get_or e ''source'' (PStr []) = PStr ''microphone'' then insert (PStr ''me'') S
    else if truthy (get_or e ''speaker'' (PStr [])) then insert (get_or e ''speaker'' (PStr [])) S
    else insert (PStr ''them'') S) = insert (speaker_name e) S"
  by (auto simp: speaker_name_def get_or_def split: option.splits)

lemma stats_loop_eq:
  "\<forall>e \<in> set es. str_or_absent (e ''text'') \<Longrightarrow>
   stats_loop es S w =
     Inr (S \<union> speaker_name ` set es, w + sum_list (map (\<lambda>e. length (split (text_of e))) es))"
proof (induction es arbitrary: S w)
  case Nil
  then show ?case by simp
next
  case (Cons e es)
  have t: "get_or e ''text'' (PStr []) = PStr (text_of e)"
    using Cons.prems by (simp add: get_or_text)
  have "stats_loop (e # es) S w =
        stats_loop es (insert (speaker_name e) S) (w + length (split (text_of e)))"
    by (simp only: stats_loop.simps Let_def stats_speaker t) (simp add: py_split_def)
  also have "\<dots> = Inr (insert (speaker_name e) S \<union> speaker_name ` set es,
      w + length (split (text_of e)) + sum_list (map (\<lambda>e. length (split (text_of e))) es))"
    using Cons.prems by (intro Cons.IH) simp
  finally show ?case by (simp add: add.assoc)
qed

lemma body_speaker:
  "(if get_or e ''source'' (PStr []) = PStr ''microphone'' then PStr ''me''
    else if truthy (get_or e ''speaker'' (PStr [])) then get_or e ''speaker'' (PStr [])
    else PStr ''them'') = speaker_name e"
  by (auto simp: speaker_name_def get_or_def split: option.splits)

lemma format_lines_Cons:
  assumes "str_or_absent (e ''text'')"
  shows "format_lines (e # es) =
     (if strip (text_of e) = [] then format_lines es
      else (case format_lines es of Inl x \<Rightarrow> Inl x | Inr ls \<Rightarrow> Inr (line_of e # ls)))"
proof -
  have t: "py_strip (get_or e ''text'' (PStr [])) = Inr (strip (text_of e))"
    using assms by (simp add: get_or_text py_strip_def)
  show ?thesis
    by (simp only: format_lines.simps t sum.case Let_def body_speaker line_of_def)
qed

lemma format_lines_eq:
  "\<forall>e \<in> set es. str_or_absent (e ''text'') \<Longrightarrow>
   format_lines es = Inr (map line_of (filter (\<lambda>e. strip (text_of e) \<noteq> []) es))"
proof (induction es)
  case Nil
  then show ?case by simp
next
  case (Cons e es)
  then have ih: "format_lines es = Inr (map line_of (filter (\<lambda>e. strip (text_of e) \<noteq> []) es))"
    by simp
  have "str_or_absent (e ''text'')" using Cons.prems by simp
  then show ?case by (simp add: format_lines_Cons ih del: format_lines.simps)
qed

lemma py_sorted_cases:
  "py_sorted key xs = Inl TypeError \<or> (\<exists>rs. py_sorted key xs = Inr rs \<and> mset rs = mset xs)"
  by (simp add: py_sorted_def)

lemma sort_entries_Inr: "\<exists>rs. sort_entries es = Inr rs \<and> mset rs = mset es"
proof (cases es)
  case Nil
  then show ?thesis by (simp add: sort_entries_def sort_entries_body_def)
next
  case (Cons first rest)
  have b: "sort_entries_body es = Inl TypeError \<or> (\<exists>rs. sort_entries_body es = Inr rs \<and> mset rs = mset es)"
    unfolding sort_entries_body_def Cons
    using py_sorted_cases [of "\<lambda>x. get_or x ''sequence_number'' (PInt 0)" "first # rest"]
          py_sorted_cases [of "\<lambda>x. get_or x ''start_timestamp'' (PStr [])" "first # rest"]
    by (simp only: list.case split: if_splits) auto
  then show ?thesis
    by (auto simp: sort_entries_def)
qed

lemma get_transcript_stats_eq:
  assumes "\<forall>e \<in> set es. str_or_absent (e ''text'')"
  shows "get_transcript_stats es =
     Inr \<lparr>total_entries = length es, speakers = card (speaker_name ` set es),
          words = sum_list (map (\<lambda>e. length (split (text_of e))) es)\<rparr>"
proof (cases "es = []")
  case True
  then show ?thesis by (simp add: get_transcript_stats_def)
next
  case False
  then show ?thesis
    using stats_loop_eq [OF assms, of "{}" 0] by (simp add: get_transcript_stats_def)
qed

lemma format_transcript_entries_Inr:
  assumes "\<forall>e \<in> set es. str_or_absent (e ''text'')"
  shows "\<exists>body. format_transcript_entries es = Inr body"
proof (cases "es = []")
  case True
  then show ?thesis by (simp add: format_transcript_entries_def)
next
  case False
  obtain rs where rs: "sort_entries es = Inr rs" "mset rs = mset es"
    using sort_entries_Inr by blast
  then have "set rs = set es" by (metis set_mset_mset)
  then have "\<forall>e \<in> set rs. str_or_absent (e ''text'')" using assms by simp
  then show ?thesis
    using False rs(1) by (simp add: format_transcript_entries_def format_lines_eq)
qed

text \<open>
  Claim C2. For every structurally valid meeting record (each of title, created\_at,
  updated\_at, document\_id and transcript\_entries absent or present, every entry field a
  string and sequence\_number an integer when present), \<open>generate_markdown\<close> raises no
  exception and returns the Markdown document assembled from the parts; a failure of the date
  parse, of the timestamp parse or of the duration computation is replaced by the fallback
  value (the unparsed input, respectively \<open>Unknown\<close>).
\<close>

theorem generate_markdown_total:
  assumes "valid_meeting r"
  shows "(\<exists>st body.
           get_transcript_stats (field_or (transcript_entries r) []) = Inr st \<and>
           format_transcript_entries (field_or (transcript_entries r) []) = Inr body \<and>
           generate_markdown r =
             Inr (assemble (py_str (field_or (title r) (PStr ''Untitled Meeting'')))
                    (py_str (formatted_date (field_or (created_at r) (PStr []))))
                    (py_str (formatted_date (field_or (updated_at r) (PStr []))))
                    (calculate_duration (field_or (transcript_entries r) []))
                    (py_str (field_or (document_id r) (PStr []))) st body)) \<and>
         (\<forall>v e. format_datetime_body v = Inl e \<longrightarrow> format_datetime v = v) \<and>
         (\<forall>v e. format_timestamp_body v = Inl e \<longrightarrow> format_timestamp v = v) \<and>
         (\<forall>es e. calculate_duration_body es = Inl e \<longrightarrow> calculate_duration es = ''Unknown'')"
proof -
  let ?es = "field_or (transcript_entries r) []"
  have t: "\<forall>e \<in> set ?es. str_or_absent (e ''text'')"
    using assms by (simp add: valid_meeting_def list_all_iff valid_entry_def)
  obtain body where body: "format_transcript_entries ?es = Inr body"
    using format_transcript_entries_Inr [OF t] by blast
  have main: "\<exists>st body.
           get_transcript_stats ?es = Inr st \<and>
           format_transcript_entries ?es = Inr body \<and>
           generate_markdown r =
             Inr (assemble (py_str (field_or (title r) (PStr ''Untitled Meeting'')))
                    (py_str (formatted_date (field_or (created_at r) (PStr []))))
                    (py_str (formatted_date (field_or (updated_at r) (PStr []))))
                    (calculate_duration ?es)
                    (py_str (field_or (document_id r) (PStr []))) st body)"
    by (simp add: generate_markdown_def Let_def get_transcript_stats_eq [OF t] body)
  have a: "\<forall>v e. format_datetime_body v = Inl e \<longrightarrow> format_datetime v = v"
    by (simp add: format_datetime_def)
  have b: "\<forall>v e. format_timestamp_body v = Inl e \<longrightarrow> format_timestamp v = v"
    by (simp add: format_timestamp_def)
  have c: "\<forall>es e. calculate_duration_body es = Inl e \<longrightarrow> calculate_duration es = ''Unknown''"
    by (simp add: calculate_duration_def)
  from main a b c show ?thesis by blast
qed

theorem generate_markdown_total_witness:
  "valid_meeting sample_meeting \<and>
   generate_markdown sample_meeting =
     Inr (assemble ''Standup'' ''not a date'' ''Unknown'' ''Unknown'' ''d1''
            \<lparr>total_entries = 2, speakers = 2, words = 2\<rparr> ''**[soon] them:** hello there'') \<and>
   format_datetime (PStr ''not a date'') = PStr ''not a date''"
proof -
  have v: "valid_meeting sample_meeting" by code_simp
  have g: "generate_markdown sample_meeting =
     Inr (assemble ''Standup'' ''not a date'' ''Unknown'' ''Unknown'' ''d1''
            \<lparr>total_entries = 2, speakers = 2, words = 2\<rparr> ''**[soon] them:** hello there'')"
    by code_simp
  have f: "format_datetime_body (PStr ''not a date'') = Inl ValueError" by code_simp
  from generate_markdown_total [OF v] f
  have "format_datetime (PStr ''not a date'') = PStr ''not a date''" by blast
  with v g show ?thesis by blast
qed

subsection \<open>Statistics and speaker attribution\<close>

lemma token_starts_cong: "is_space p = is_space q \<Longrightarrow> token_starts p s = token_starts q s"
  by (cases s) simp_all

lemma length_split_acc:
  "length (split_acc s w) =
     (if w = [] then token_starts CHR '' '' s else Suc (token_starts CHR ''a'' s))"
proof (induction s arbitrary: w)
  case Nil
  then show ?case by simp
next
  case (Cons c cs)
  have sp: "is_space CHR '' ''" and na: "\<not> is_space CHR ''a''"
    by (simp_all add: is_space_def)
  show ?case
  proof (cases "is_space c")
    case True
    then have "token_starts c cs = token_starts CHR '' '' cs"
      using sp by (intro token_starts_cong) simp
    then show ?thesis using True sp na by (simp add: Cons.IH)
  next
    case False
    then have "token_starts c cs = token_starts CHR ''a'' cs"
      using na by (intro token_starts_cong) simp
    then show ?thesis using False sp na by (simp add: Cons.IH)
  qed
qed

lemma length_split: "length (split s) = token_starts CHR '' '' s"
  by (simp add: split_def length_split_acc)

text \<open>
  Claim C6. \<open>get_transcript_stats\<close> works on the raw entry list: total\_entries is the
  length of the list, entries with empty text included; speakers is the number of distinct
  attributed speaker names over all entries; words is the sum over all entries of the
  number of whitespace-separated tokens of the text (a token starts at every character
  that is not whitespace and stands first or after whitespace), which is 0 for an empty or
  missing text; the empty list gives three zeros.
\<close>

theorem get_transcript_stats_spec:
  assumes "\<forall>e \<in> set es. str_or_absent (e ''text'')"
  shows "get_transcript_stats es =
           Inr \<lparr>total_entries = length es, speakers = card (speaker_name ` set es),
                words = sum_list (map (\<lambda>e. token_starts CHR '' '' (text_of e)) es)\<rparr> \<and>
         get_transcript_stats [] = Inr \<lparr>total_entries = 0, speakers = 0, words = 0\<rparr> \<and>
         token_starts CHR '' '' [] = 0 \<and>
         (\<forall>e. e ''text'' = None \<longrightarrow> text_of e = [])"
proof -
  have "get_transcript_stats es =
           Inr \<lparr>total_entries = length es, speakers = card (speaker_name ` set es),
                words = sum_list (map (\<lambda>e. token_starts CHR '' '' (text_of e)) es)\<rparr>"
    using get_transcript_stats_eq [OF assms] by (simp add: length_split)
  moreover have "get_transcript_stats [] = Inr \<lparr>total_entries = 0, speakers = 0, words = 0\<rparr>"
    by (simp add: get_transcript_stats_def)
  moreover have "\<forall>e. e ''text'' = None \<longrightarrow> text_of e = []"
    by (simp add: text_of_def)
  ultimately show ?thesis by simp
qed

theorem get_transcript_stats_spec_witness:
  "get_transcript_stats
     [[''text'' \<mapsto> PStr ''hello  world'', ''speaker'' \<mapsto> PStr ''Ann''],
      [''text'' \<mapsto> PStr [], ''source'' \<mapsto> PStr ''microphone''],
      [''speaker'' \<mapsto> PStr ''Ann'']]
   = Inr \<lparr>total_entries = 3, speakers = 2, words = 2\<rparr>"
proof -
  let ?es = "[[''text'' \<mapsto> PStr ''hello  world'', ''speaker'' \<mapsto> PStr ''Ann''],
      [''text'' \<mapsto> PStr [], ''source'' \<mapsto> PStr ''microphone''],
      [''speaker'' \<mapsto> PStr ''Ann'']] :: entry list"
  have h: "\<forall>e \<in> set ?es. str_or_absent (e ''text'')"
    by (simp add: str_or_absent_def)
  have c: "card (speaker_name ` set ?es) = 2"
    by (simp add: speaker_name_def)
  have w: "sum_list (map (\<lambda>e. token_starts CHR '' '' (text_of e)) ?es) = 2"
    by (simp add: text_of_def is_space_def)
  from get_transcript_stats_spec [OF h] show ?thesis
    unfolding c w by simp
qed

lemma stats_loop_speakers:
  "stats_loop es S w = Inr (S', w') \<Longrightarrow> S' = S \<union> speaker_name ` set es"
proof (induction es arbitrary: S w)
  case Nil
  then show ?case by simp
next
  case (Cons e es)
  from Cons.prems have
    "(case py_split (get_or e ''text'' (PStr [])) of Inl x \<Rightarrow> Inl x
      | Inr tokens \<Rightarrow> stats_loop es (insert (speaker_name e) S) (w + length tokens)) = Inr (S', w')"
    by (simp only: stats_loop.simps Let_def stats_speaker)
  then obtain tokens :: "string list" where
    "stats_loop es (insert (speaker_name e) S) (w + length tokens) = Inr (S', w')"
    by (cases "py_split (get_or e ''text'' (PStr []))") auto
  then have "S' = insert (speaker_name e) S \<union> speaker_name ` set es"
    by (rule Cons.IH)
  then show ?case by simp
qed

text \<open>
  Claim C4. The attributed speaker of an entry is \<open>me\<close> when source is \<open>microphone\<close>
  (whatever speaker holds), else the value of speaker when it is non-empty, else
  \<open>them\<close>. The line that the body loop emits for an entry carries this name, and the set
  of names that the statistics loop collects is the set of these names over all entries.
\<close>

theorem speaker_attribution:
  "(e ''source'' = Some (PStr ''microphone'') \<longrightarrow> speaker_name e = PStr ''me'') \<and>
   (e ''source'' \<noteq> Some (PStr ''microphone'') \<longrightarrow> e ''speaker'' = Some v \<longrightarrow> truthy v \<longrightarrow>
      speaker_name e = v) \<and>
   (e ''source'' \<noteq> Some (PStr ''microphone'') \<longrightarrow>
      (e ''speaker'' = None \<or> (e ''speaker'' = Some v \<and> \<not> truthy v)) \<longrightarrow>
      speaker_name e = PStr ''them'') \<and>
   (str_or_absent (e ''text'') \<longrightarrow> strip (text_of e) \<noteq> [] \<longrightarrow>
      (\<exists>pre. format_lines [e] = Inr [pre @ py_str (speaker_name e) @ '':** '' @ strip (text_of e)])) \<and>
   (stats_loop es {} 0 = Inr (S, w) \<longrightarrow> S = speaker_name ` set es) \<and>
   (get_transcript_stats es = Inr st \<longrightarrow> speakers st = card (speaker_name ` set es))"
proof -
  have a: "e ''source'' = Some (PStr ''microphone'') \<longrightarrow> speaker_name e = PStr ''me''"
    by (simp add: speaker_name_def)
  have b: "e ''source'' \<noteq> Some (PStr ''microphone'') \<longrightarrow> e ''speaker'' = Some v \<longrightarrow> truthy v \<longrightarrow>
      speaker_name e = v"
    by (simp add: speaker_name_def)
  have c: "e ''source'' \<noteq> Some (PStr ''microphone'') \<longrightarrow>
      (e ''speaker'' = None \<or> (e ''speaker'' = Some v \<and> \<not> truthy v)) \<longrightarrow>
      speaker_name e = PStr ''them''"
    by (auto simp: speaker_name_def)
  have d: "str_or_absent (e ''text'') \<longrightarrow> strip (text_of e) \<noteq> [] \<longrightarrow>
      (\<exists>pre. format_lines [e] = Inr [pre @ py_str (speaker_name e) @ '':** '' @ strip (text_of e)])"
  proof (intro impI)
    assume t: "str_or_absent (e ''text'')" and n: "strip (text_of e) \<noteq> []"
    have "format_lines [e] = Inr [line_of e]"
      using n by (simp add: format_lines_Cons [of e "[]", OF t] del: format_lines.simps(2))
    moreover have "\<exists>pre. line_of e = pre @ py_str (speaker_name e) @ '':** '' @ strip (text_of e)"
    proof (cases "truthy (get e ''start_timestamp'')")
      case True
      then have "line_of e = (''**['' @ py_str (format_timestamp (get e ''start_timestamp'')) @ ''] '')
          @ py_str (speaker_name e) @ '':** '' @ strip (text_of e)"
        by (simp add: line_of_def)
      then show ?thesis by blast
    next
      case False
      then have "line_of e = ''**'' @ py_str (speaker_name e) @ '':** '' @ strip (text_of e)"
        by (simp add: line_of_def)
      then show ?thesis by blast
    qed
    ultimately show "\<exists>pre. format_lines [e] = Inr [pre @ py_str (speaker_name e) @ '':** '' @ strip (text_of e)]"
      by auto
  qed
  have f: "stats_loop es {} 0 = Inr (S, w) \<longrightarrow> S = speaker_name ` set es"
    using stats_loop_speakers [of es "{}" 0 S w] by simp
  have g: "get_transcript_stats es = Inr st \<longrightarrow> speakers st = card (speaker_name ` set es)"
  proof (cases "es = []")
    case True
    then show ?thesis by (auto simp: get_transcript_stats_def)
  next
    case False
    show ?thesis
    proof
      assume "get_transcript_stats es = Inr st"
      then obtain S' w' where "stats_loop es {} 0 = Inr (S', w')" and "speakers st = card S'"
        using False by (auto simp: get_transcript_stats_def split: sum.splits)
      then show "speakers st = card (speaker_name ` set es)"
        using stats_loop_speakers [of es "{}" 0 S' w'] by simp
    qed
  qed
  from a b c d f g show ?thesis by blast
qed

theorem speaker_attribution_witness:
  "speaker_name [''source'' \<mapsto> PStr ''microphone'', ''speaker'' \<mapsto> PStr ''Bob'', ''text'' \<mapsto> PStr ''hi'']
     = PStr ''me'' \<and>
   format_lines [[''source'' \<mapsto> PStr ''microphone'', ''speaker'' \<mapsto> PStr ''Bob'', ''text'' \<mapsto> PStr ''hi'']]
     = Inr [''**me:** hi''] \<and>
   get_transcript_stats [[''source'' \<mapsto> PStr ''microphone'', ''speaker'' \<mapsto> PStr ''Bob'', ''text'' \<mapsto> PStr ''hi'']]
     = Inr \<lparr>total_entries = 1, speakers = 1, words = 1\<rparr>"
proof -
  let ?e = "[''source'' \<mapsto> PStr ''microphone'', ''speaker'' \<mapsto> PStr ''Bob'', ''text'' \<mapsto> PStr ''hi''] :: entry"
  have s: "?e ''source'' = Some (PStr ''microphone'')" by simp
  have "speaker_name ?e = PStr ''me''"
    using speaker_attribution [of ?e] s by blast
  moreover have "format_lines [?e] = Inr [''**me:** hi'']" by code_simp
  moreover have "get_transcript_stats [?e] = Inr \<lparr>total_entries = 1, speakers = 1, words = 1\<rparr>"
    by code_simp
  ultimately show ?thesis by blast
qed

subsection \<open>The body of an all-blank transcript\<close>

text \<open>
  Claim C1. For a non-empty list whose entries all have blank text the function does not
  return the placeholder: the body is the empty string. Only the empty list gives
  \<open>*No transcript available*\<close>.
\<close>

theorem blank_entries_body_empty:
  "format_transcript_entries [[''text'' \<mapsto> PStr ''   '']] = Inr [] \<and>
   format_transcript_entries [] = Inr ''*No transcript available*''"
  by code_simp

lemma format_transcript_entries_blank:
  assumes "es \<noteq> []" and "\<forall>e \<in> set es. str_or_absent (e ''text'') \<and> strip (text_of e) = []"
  shows "format_transcript_entries es = Inr []"
proof -
  obtain rs where rs: "sort_entries es = Inr rs" "mset rs = mset es"
    using sort_entries_Inr by blast
  then have "set rs = set es" by (metis set_mset_mset)
  then have b: "\<forall>e \<in> set rs. str_or_absent (e ''text'') \<and> strip (text_of e) = []"
    using assms(2) by simp
  then have "filter (\<lambda>e. strip (text_of e) \<noteq> []) rs = []"
    by (simp add: filter_empty_conv)
  then have "format_lines rs = Inr []"
    using b by (simp add: format_lines_eq)
  then show ?thesis
    using assms(1) rs(1) by (simp add: format_transcript_entries_def)
qed

subsection \<open>The title and the dates of the document\<close>






subsection \<open>The display date\<close>








subsection \<open>The order of the entries\<close>

lemma sort_key_short: "length xs \<le> 1 \<Longrightarrow> sort_key f xs = xs"
  by (cases xs; cases "tl xs") auto

lemma py_sorted_int:
  assumes "\<forall>x \<in> set xs. is_int (key x)"
  shows "py_sorted key xs = Inr (sort_key (\<lambda>x. the_int (key x)) xs)"
  using assms by (simp add: py_sorted_def list_all_iff sort_key_short)

lemma py_sorted_str:
  assumes "\<forall>x \<in> set xs. is_str (key x)"
  shows "py_sorted key xs = Inr (sort_key (\<lambda>x. the_str (key x)) xs)"
proof (cases "length xs \<le> 1")
  case True
  then show ?thesis by (simp add: py_sorted_def sort_key_short)
next
  case False
  then obtain x where x: "x \<in> set xs" by (cases xs) auto
  then have "is_str (key x)" using assms by simp
  then have "\<not> is_int (key x)" by (cases "key x") simp_all
  then have n: "\<not> list_all (\<lambda>x. is_int (key x)) xs"
    using x by (auto simp: list_all_iff)
  have s: "list_all (\<lambda>x. is_str (key x)) xs"
    using assms by (simp add: list_all_iff)
  show ?thesis
    unfolding py_sorted_def using False n s by simp
qed

lemma seq_key:
  assumes "int_or_absent (e ''sequence_number'')"
  shows "is_int (get_or e ''sequence_number'' (PInt 0)) \<and>
         the_int (get_or e ''sequence_number'' (PInt 0)) = seq_of e"
proof (cases "e ''sequence_number''")
  case None
  then show ?thesis by (simp add: get_or_def seq_of_def)
next
  case (Some v)
  with assms show ?thesis
    by (cases v) (simp_all add: get_or_def seq_of_def int_or_absent_def)
qed

lemma ts_key:
  assumes "str_or_absent (e ''start_timestamp'')"
  shows "is_str (get_or e ''start_timestamp'' (PStr [])) \<and>
         the_str (get_or e ''start_timestamp'' (PStr [])) = ts_of e"
proof (cases "e ''start_timestamp''")
  case None
  then show ?thesis by (simp add: get_or_def ts_of_def)
next
  case (Some v)
  with assms show ?thesis
    by (cases v) (simp_all add: get_or_def ts_of_def str_or_absent_def)
qed

text \<open>
  Claim C3. For a non-empty entry list (sequence numbers integers and start timestamps
  strings where present) the order is chosen from the first entry alone. If it has a
  sequence\_number key, the result is a stable rearrangement of the list in ascending order of
  sequence\_number, a missing one counting as 0; else if it has a start\_timestamp key, a
  stable rearrangement in ascending lexicographic order of start\_timestamp, a missing one
  counting as the empty string; otherwise the list is unchanged. For the two entries with
  sequence numbers 2 (text b) and 1 (text a), in either order, the body lists a before b.
\<close>

theorem sort_entries_spec:
  assumes "es \<noteq> []"
    and "\<forall>e \<in> set es. int_or_absent (e ''sequence_number'') \<and> str_or_absent (e ''start_timestamp'')"
  shows "(\<exists>rs. sort_entries es = Inr rs \<and> mset rs = mset es \<and>
           (if hd es ''sequence_number'' \<noteq> None
            then sorted (map seq_of rs) \<and>
                 (\<forall>k. filter (\<lambda>e. seq_of e = k) rs = filter (\<lambda>e. seq_of e = k) es)
            else if hd es ''start_timestamp'' \<noteq> None
            then sorted (map ts_of rs) \<and>
                 (\<forall>k. filter (\<lambda>e. ts_of e = k) rs = filter (\<lambda>e. ts_of e = k) es)
            else rs = es)) \<and>
         format_transcript_entries [entry_b2, entry_a1]
           = Inr (''**them:** a'' @ [CHR 0x0A, CHR 0x0A] @ ''**them:** b'') \<and>
         format_transcript_entries [entry_a1, entry_b2]
           = Inr (''**them:** a'' @ [CHR 0x0A, CHR 0x0A] @ ''**them:** b'')"
proof -
  obtain first rest where es: "es = first # rest"
    using assms(1) by (cases es) auto
  let ?ki = "\<lambda>x. get_or x ''sequence_number'' (PInt 0)"
  let ?ks = "\<lambda>x. get_or x ''start_timestamp'' (PStr [])"
  have ki: "\<forall>x \<in> set es. is_int (?ki x) \<and> the_int (?ki x) = seq_of x"
    using assms(2) seq_key by blast
  have ks: "\<forall>x \<in> set es. is_str (?ks x) \<and> the_str (?ks x) = ts_of x"
    using assms(2) ts_key by blast
  have main: "\<exists>rs. sort_entries es = Inr rs \<and> mset rs = mset es \<and>
           (if hd es ''sequence_number'' \<noteq> None
            then sorted (map seq_of rs) \<and>
                 (\<forall>k. filter (\<lambda>e. seq_of e = k) rs = filter (\<lambda>e. seq_of e = k) es)
            else if hd es ''start_timestamp'' \<noteq> None
            then sorted (map ts_of rs) \<and>
                 (\<forall>k. filter (\<lambda>e. ts_of e = k) rs = filter (\<lambda>e. ts_of e = k) es)
            else rs = es)"
  proof (cases "first ''sequence_number'' \<noteq> None")
    case True
    let ?f = "\<lambda>x. the_int (?ki x)"
    let ?rs = "sort_key ?f es"
    have "py_sorted ?ki es = Inr ?rs"
      using ki by (intro py_sorted_int) simp
    then have r: "sort_entries es = Inr ?rs"
      using True by (simp add: sort_entries_def sort_entries_body_def es)
    have m: "mset ?rs = mset es" by simp
    have set: "set ?rs = set es" by simp
    have "map seq_of ?rs = map ?f ?rs"
      using ki set by (intro map_cong) auto
    then have s: "sorted (map seq_of ?rs)"
      by (simp only: sorted_sort_key)
    have st: "filter (\<lambda>e. seq_of e = k) ?rs = filter (\<lambda>e. seq_of e = k) es" for k
    proof -
      have "filter (\<lambda>e. seq_of e = k) ?rs = filter (\<lambda>e. ?f e = k) ?rs"
        using ki set by (intro filter_cong) auto
      also have "\<dots> = filter (\<lambda>e. ?f e = k) es"
        by (rule sort_key_stable)
      also have "\<dots> = filter (\<lambda>e. seq_of e = k) es"
        using ki by (intro filter_cong) auto
      finally show ?thesis .
    qed
    show ?thesis
      using True r m s st by (auto simp: es)
  next
    case noseq: False
    show ?thesis
    proof (cases "first ''start_timestamp'' \<noteq> None")
      case True
      let ?f = "\<lambda>x. the_str (?ks x)"
      let ?rs = "sort_key ?f es"
      have "py_sorted ?ks es = Inr ?rs"
        using ks by (intro py_sorted_str) simp
      then have r: "sort_entries es = Inr ?rs"
        using True noseq by (simp add: sort_entries_def sort_entries_body_def es)
      have m: "mset ?rs = mset es" by simp
      have set: "set ?rs = set es" by simp
      have "map ts_of ?rs = map ?f ?rs"
        using ks set by (intro map_cong) auto
      then have s: "sorted (map ts_of ?rs)"
        by (simp only: sorted_sort_key)
      have st: "filter (\<lambda>e. ts_of e = k) ?rs = filter (\<lambda>e. ts_of e = k) es" for k
      proof -
        have "filter (\<lambda>e. ts_of e = k) ?rs = filter (\<lambda>e. ?f e = k) ?rs"
          using ks set by (intro filter_cong) auto
        also have "\<dots> = filter (\<lambda>e. ?f e = k) es"
          by (rule sort_key_stable)
        also have "\<dots> = filter (\<lambda>e. ts_of e = k) es"
          using ks by (intro filter_cong) auto
        finally show ?thesis .
      qed
      show ?thesis
        using True noseq r m s st by (auto simp: es)
    next
      case False
      then have "sort_entries es = Inr es"
        using noseq by (simp add: sort_entries_def sort_entries_body_def es)
      then show ?thesis
        using False noseq by (simp add: es)
    qed
  qed
  have e1: "format_transcript_entries [entry_b2, entry_a1]
           = Inr (''**them:** a'' @ [CHR 0x0A, CHR 0x0A] @ ''**them:** b'')"
    by code_simp
  have e2: "format_transcript_entries [entry_a1, entry_b2]
           = Inr (''**them:** a'' @ [CHR 0x0A, CHR 0x0A] @ ''**them:** b'')"
    by code_simp
  from main e1 e2 show ?thesis by blast
qed

theorem sort_entries_spec_witness:
  "[entry_b2, entry_noseq, entry_a1] \<noteq> [] \<and>
   list_all (\<lambda>e. int_or_absent (e ''sequence_number'') \<and> str_or_absent (e ''start_timestamp''))
     [entry_b2, entry_noseq, entry_a1] \<and>
   (\<exists>rs. sort_entries [entry_b2, entry_noseq, entry_a1] = Inr rs \<and>
         map seq_of rs = [0, 1, 2] \<and> sorted (map seq_of rs) \<and>
         mset rs = mset [entry_b2, entry_noseq, entry_a1])"
proof -
  let ?es = "[entry_b2, entry_noseq, entry_a1]"
  have ne: "?es \<noteq> []" by simp
  have ty': "list_all (\<lambda>e. int_or_absent (e ''sequence_number'') \<and> str_or_absent (e ''start_timestamp'')) ?es"
    by (simp add: entry_b2_def entry_noseq_def entry_a1_def int_or_absent_def str_or_absent_def)
  then have ty: "\<forall>e \<in> set ?es. int_or_absent (e ''sequence_number'') \<and> str_or_absent (e ''start_timestamp'')"
    by (simp only: list_all_iff)
  have h: "hd ?es ''sequence_number'' \<noteq> None"
    by (simp add: entry_b2_def)
  have ev: "map_sum id (map seq_of) (sort_entries ?es) = Inr [0, 1, 2]"
    by code_simp
  note t = sort_entries_spec [OF ne ty, THEN conjunct1]
  from t obtain rs where
    r1: "sort_entries ?es = Inr rs" and r2: "mset rs = mset ?es" and
    r3: "if hd ?es ''sequence_number'' \<noteq> None
       then sorted (map seq_of rs) \<and>
            (\<forall>k. filter (\<lambda>e. seq_of e = k) rs = filter (\<lambda>e. seq_of e = k) ?es)
       else if hd ?es ''start_timestamp'' \<noteq> None
       then sorted (map ts_of rs) \<and>
            (\<forall>k. filter (\<lambda>e. ts_of e = k) rs = filter (\<lambda>e. ts_of e = k) ?es)
       else rs = ?es"
    by (elim exE conjE)
  from r3 have s: "sorted (map seq_of rs)"
    unfolding if_P [OF h] by (rule conjunct1)
  from ev have m: "map seq_of rs = [0, 1, 2]"
    unfolding r1 by simp
  have "\<exists>rs. sort_entries ?es = Inr rs \<and> map seq_of rs = [0, 1, 2] \<and> sorted (map seq_of rs) \<and>
         mset rs = mset ?es"
    using r1 m s r2 by (intro exI [of _ rs] conjI)
  with ne ty' show ?thesis by (intro conjI)
qed

subsection \<open>The duration\<close>

lemma str_the_str: "is_str v \<Longrightarrow> PStr (the_str v) = v"
  by (cases v) simp_all

lemma py_min_strs:
  assumes "vs \<noteq> []" and "list_all is_str vs"
  shows "py_min vs = Inr (PStr (Min (set (map the_str vs))))"
proof -
  obtain x rest where vs: "vs = x # rest" using assms(1) by (cases vs) auto
  have x: "is_str x" using assms(2) vs by simp
  show ?thesis
  proof (cases "rest = []")
    case True
    then show ?thesis using vs x by (simp add: py_min_def str_the_str)
  next
    case False
    have "\<not> is_int x" using x by (cases x) simp_all
    then have n: "\<not> list_all is_int vs" using vs by simp
    have "fold min (map the_str rest) (the_str x) = Min (set (map the_str vs))"
      unfolding vs using Min.set_eq_fold [of "the_str x" "map the_str rest"] by simp
    then show ?thesis
      using False n assms(2) unfolding py_min_def vs by simp
  qed
qed

lemma py_max_strs:
  assumes "vs \<noteq> []" and "list_all is_str vs"
  shows "py_max vs = Inr (PStr (Max (set (map the_str vs))))"
proof -
  obtain x rest where vs: "vs = x # rest" using assms(1) by (cases vs) auto
  have x: "is_str x" using assms(2) vs by simp
  show ?thesis
  proof (cases "rest = []")
    case True
    then show ?thesis using vs x by (simp add: py_max_def str_the_str)
  next
    case False
    have "\<not> is_int x" using x by (cases x) simp_all
    then have n: "\<not> list_all is_int vs" using vs by simp
    have "fold max (map the_str rest) (the_str x) = Max (set (map the_str vs))"
      unfolding vs using Max.set_eq_fold [of "the_str x" "map the_str rest"] by simp
    then show ?thesis
      using False n assms(2) unfolding py_max_def vs by simp
  qed
qed

lemma calculate_duration_body_empty:
  "start_strings es = [] \<or> end_strings es = [] \<Longrightarrow> calculate_duration_body es = Inr ''Unknown''"
  by (auto simp: calculate_duration_body_def start_strings_def end_strings_def Let_def)

lemma calculate_duration_body_strings:
  assumes "timestamps_are_strings es" and "start_strings es \<noteq> []" and "end_strings es \<noteq> []"
  shows "calculate_duration_body es =
     bind_exn (py_fromisoformat (replace_Z (Min (set (start_strings es))))) (\<lambda>a.
     bind_exn (py_fromisoformat (replace_Z (Max (set (end_strings es))))) (\<lambda>b.
     bind_exn (dt_sub b a) (\<lambda>d.
       Inr (render_duration (td_seconds d div 3600) ((td_seconds d mod 3600) div 60)))))"
proof -
  let ?sv = "filter truthy (map (\<lambda>e. get e ''start_timestamp'') es)"
  let ?ev = "filter truthy (map (\<lambda>e. get e ''end_timestamp'') es)"
  have sv: "?sv \<noteq> []" and ev: "?ev \<noteq> []"
    using assms(2,3) by (auto simp: start_strings_def end_strings_def)
  then have ne: "es \<noteq> []" by auto
  have mn: "py_min ?sv = Inr (PStr (Min (set (start_strings es))))"
    using py_min_strs [OF sv] assms(1)
    by (simp add: timestamps_are_strings_def start_strings_def)
  have mx: "py_max ?ev = Inr (PStr (Max (set (end_strings es))))"
    using py_max_strs [OF ev] assms(1)
    by (simp add: timestamps_are_strings_def end_strings_def)
  show ?thesis
    unfolding calculate_duration_body_def Let_def
    using ne sv ev by (simp add: mn mx py_replace_Z_def)
qed

lemma td_seconds_range: "0 \<le> td_seconds d \<and> td_seconds d < 86400"
  by (simp add: td_seconds_def)

lemma td_seconds_shift: "td_seconds (d + k * 86400000000) = td_seconds d"
proof -
  have "(d + k * 86400000000) div 1000000 = d div 1000000 + k * 86400"
  proof -
    have "d + k * 86400000000 = d + (k * 86400) * 1000000" by simp
    then show ?thesis using div_mult_self1 [of 1000000 d "k * 86400"] by simp
  qed
  then show ?thesis by (simp add: td_seconds_def)
qed

lemma td_decompose: "d = td_days d * 86400000000 + td_seconds d * 1000000 + d mod 1000000"
proof -
  let ?q = "d div 1000000"
  have "?q div 86400 = d div 86400000000"
    using zdiv_zmult2_eq [of 86400 d 1000000] by simp
  moreover have "?q = (?q div 86400) * 86400 + ?q mod 86400" by simp
  ultimately have q: "?q = td_days d * 86400 + td_seconds d"
    by (simp only: td_days_def td_seconds_def)
  have "d = ?q * 1000000 + d mod 1000000" by simp
  also have "\<dots> = (td_days d * 86400 + td_seconds d) * 1000000 + d mod 1000000"
    using q by simp
  finally show ?thesis by (simp add: algebra_simps)
qed

lemma calculate_duration_reached:
  assumes "timestamps_are_strings es" and "start_strings es \<noteq> []" and "end_strings es \<noteq> []"
    and "fromisoformat (replace_Z (Min (set (start_strings es)))) = Some a"
    and "fromisoformat (replace_Z (Max (set (end_strings es)))) = Some b"
    and "dt_sub b a = Inr d"
  shows "calculate_duration es =
           render_duration (td_seconds d div 3600) ((td_seconds d mod 3600) div 60)"
  using assms(4-6)
  by (simp add: calculate_duration_def calculate_duration_body_strings [OF assms(1-3)]
      py_fromisoformat_def)

text \<open>
  Claim C10. Whenever \<open>calculate_duration\<close> reaches its arithmetic step, the hours and
  minutes it renders come from the \<open>seconds\<close> field of the timedelta alone: the whole
  days of the difference are dropped (a difference and the same difference plus any number
  of days render alike; 25 hours render as \<open>1 hour 0 minutes\<close>), the hours lie between 0
  and 23 and the minutes between 0 and 59, also when the latest end precedes the earliest
  start.
\<close>

theorem duration_seconds_field:
  assumes "timestamps_are_strings es" and "start_strings es \<noteq> []" and "end_strings es \<noteq> []"
    and "fromisoformat (replace_Z (Min (set (start_strings es)))) = Some a"
    and "fromisoformat (replace_Z (Max (set (end_strings es)))) = Some b"
    and "dt_sub b a = Inr d"
  shows "calculate_duration es =
           render_duration (td_seconds d div 3600) ((td_seconds d mod 3600) div 60) \<and>
         d = td_days d * 86400000000 + td_seconds d * 1000000 + d mod 1000000 \<and>
         (\<forall>k. td_seconds (d + k * 86400000000) = td_seconds d) \<and>
         0 \<le> td_seconds d div 3600 \<and> td_seconds d div 3600 \<le> 23 \<and>
         0 \<le> (td_seconds d mod 3600) div 60 \<and> (td_seconds d mod 3600) div 60 \<le> 59 \<and>
         calculate_duration (span ''2024-01-01T10:00:00Z'' ''2024-01-02T11:00:00Z'')
           = ''1 hour 0 minutes'' \<and>
         calculate_duration (span ''2024-01-01T10:00:00Z'' ''2024-01-01T09:59:00Z'')
           = ''23 hours 59 minutes''"
proof -
  have r: "0 \<le> td_seconds d" "td_seconds d < 86400"
    using td_seconds_range [of d] by simp_all
  have h1: "0 \<le> td_seconds d div 3600" using r by simp
  have h2: "td_seconds d div 3600 \<le> 23" using r by simp
  have m1: "0 \<le> (td_seconds d mod 3600) div 60" by simp
  have "td_seconds d mod 3600 < 3600" by simp
  then have m2: "(td_seconds d mod 3600) div 60 \<le> 59" by simp
  have e1: "calculate_duration (span ''2024-01-01T10:00:00Z'' ''2024-01-02T11:00:00Z'')
           = ''1 hour 0 minutes''"
    by code_simp
  have e2: "calculate_duration (span ''2024-01-01T10:00:00Z'' ''2024-01-01T09:59:00Z'')
           = ''23 hours 59 minutes''"
    by code_simp
  have c1: "calculate_duration es =
           render_duration (td_seconds d div 3600) ((td_seconds d mod 3600) div 60)"
    by (rule calculate_duration_reached [OF assms])
  have c2: "d = td_days d * 86400000000 + td_seconds d * 1000000 + d mod 1000000"
    by (rule td_decompose)
  have c3: "\<forall>k. td_seconds (d + k * 86400000000) = td_seconds d"
    by (simp add: td_seconds_shift)
  show ?thesis
    by (intro conjI) (rule c1, rule c2, rule c3, rule h1, rule h2, rule m1, rule m2, rule e1, rule e2)
qed

theorem duration_seconds_field_witness:
  "timestamps_are_strings (span ''2024-01-01T10:00:00'' ''2024-01-02T11:00:00'') \<and>
   start_strings (span ''2024-01-01T10:00:00'' ''2024-01-02T11:00:00'') = [''2024-01-01T10:00:00''] \<and>
   end_strings (span ''2024-01-01T10:00:00'' ''2024-01-02T11:00:00'') = [''2024-01-02T11:00:00''] \<and>
   map_option (\<lambda>b. map_option (dt_sub b) (fromisoformat (replace_Z ''2024-01-01T10:00:00'')))
     (fromisoformat (replace_Z ''2024-01-02T11:00:00'')) = Some (Some (Inr 90000000000)) \<and>
   td_seconds 90000000000 = 3600 \<and>
   calculate_duration (span ''2024-01-01T10:00:00'' ''2024-01-02T11:00:00'') = render_duration 1 0"
proof -
  let ?es = "span ''2024-01-01T10:00:00'' ''2024-01-02T11:00:00''"
  let ?a = "\<lparr>dt_year = 2024, dt_month = 1, dt_day = 1, dt_hour = 10, dt_minute = 0,
           dt_second = 0, dt_microsecond = 0, dt_utcoffset = None\<rparr>"
  let ?b = "\<lparr>dt_year = 2024, dt_month = 1, dt_day = 2, dt_hour = 11, dt_minute = 0,
           dt_second = 0, dt_microsecond = 0, dt_utcoffset = None\<rparr>"
  have t: "timestamps_are_strings ?es" by code_simp
  have s: "start_strings ?es = [''2024-01-01T10:00:00'']" by code_simp
  have e: "end_strings ?es = [''2024-01-02T11:00:00'']" by code_simp
  have s': "start_strings ?es \<noteq> []" and e': "end_strings ?es \<noteq> []"
    using s e by simp_all
  have pa: "fromisoformat (replace_Z ''2024-01-01T10:00:00'') = Some ?a" by code_simp
  have pb: "fromisoformat (replace_Z ''2024-01-02T11:00:00'') = Some ?b" by code_simp
  have d: "dt_sub ?b ?a = Inr 90000000000" by code_simp
  have sec: "td_seconds 90000000000 = 3600" by code_simp
  have pa': "fromisoformat (replace_Z (Min (set (start_strings ?es)))) = Some ?a"
    unfolding s using pa by simp
  have pb': "fromisoformat (replace_Z (Max (set (end_strings ?es)))) = Some ?b"
    unfolding e using pb by simp
  have "calculate_duration ?es =
      render_duration (td_seconds 90000000000 div 3600) ((td_seconds 90000000000 mod 3600) div 60)"
    using duration_seconds_field [OF t s' e' pa' pb' d] by (rule conjunct1)
  then have c: "calculate_duration ?es = render_duration 1 0"
    unfolding sec by simp
  have q: "map_option (\<lambda>b. map_option (dt_sub b) (fromisoformat (replace_Z ''2024-01-01T10:00:00'')))
     (fromisoformat (replace_Z ''2024-01-02T11:00:00'')) = Some (Some (Inr 90000000000))"
    unfolding pa pb using d by simp
  show ?thesis
    by (intro conjI) (rule t, rule s, rule e, rule q, rule sec, rule c)
qed

end
